theory Spec2Isabelle
  imports Main
begin

section \<open>Collaborators of the camera source\<close>

text \<open>
  Modelled from the spec: the mode descriptor \<open>VideoMode\<close> (videomode.h is not among the
  sources). The spec gives it a width, a height and a frame rate, an all-zero default, and a
  region-of-screen variant; it is compared by value.
\<close>

record VideoMode =
  width :: int
  height :: int
  xoff :: int
  yoff :: int
  FPS :: int

definition VideoMode_default :: VideoMode where
  "VideoMode_default = \<lparr>width = 0, height = 0, xoff = 0, yoff = 0, FPS = 0\<rparr>"

datatype AVMediaType = AVMEDIA_TYPE_VIDEO | AVMEDIA_TYPE_AUDIO | AVMEDIA_TYPE_DATA

record AVCodecContext =
  codec_type :: AVMediaType
  codec_id :: nat
  refcounted_frames :: int
  codec_opened :: bool

record AVStream =
  codec :: AVCodecContext

text \<open>
  Modelled from the spec: the device handle \<open>CameraDevice\<close> (cameradevice.cpp is not among
  the sources). The spec describes \<open>handle.open()/close()\<close> as a reference-counted
  per-subscriber open: \<open>open\<close> adds one to the count and reports success, \<open>close\<close>
  takes one away and reports whether the handle was really closed (and deleted) by this call.
  A handle whose count is not positive any more has been deleted.
\<close>

record CameraDevice =
  refcount :: int
  streams :: "AVStream list"

text \<open>
  Modelled from the spec: the member \<open>CameraDevice::open()\<close>, which is absent from the
  sources; one more open is counted and the call reports success.
\<close>

definition CameraDevice_open :: "CameraDevice \<Rightarrow> CameraDevice" where
  "CameraDevice_open d = d\<lparr>refcount := refcount d + 1\<rparr>"

text \<open>
  Modelled from the spec: the member \<open>CameraDevice::close()\<close>, which is absent from the
  sources; one open is given back, and the result is true when this was the last one and the
  handle has been closed.
\<close>

definition CameraDevice_close :: "CameraDevice \<Rightarrow> bool \<times> CameraDevice" where
  "CameraDevice_close d =
     (let d' = d\<lparr>refcount := refcount d - 1\<rparr>
      in if 0 < refcount d' then (False, d') else (True, d'))"

text \<open>
  What the source asks of the settings store, the device layer and the codec library is a
  parameter of the model: the answers of \<open>Settings\<close>, of the static
  \<open>CameraDevice::open(name, mode)\<close>, \<open>isScreen\<close> and \<open>getDefaultDeviceName\<close>, and of
  \<open>avcodec_find_decoder\<close>, \<open>avcodec_copy_context\<close> and \<open>avcodec_open2\<close> (the last two
  through their integer return code).
\<close>

record Env =
  getScreenRegion :: VideoMode
  getCamVideoRes :: VideoMode
  getCamVideoFPS :: int
  isScreen :: "string \<Rightarrow> bool"
  getDefaultDeviceName :: string
  CameraDevice_open_static :: "string \<Rightarrow> VideoMode \<Rightarrow> CameraDevice option"
  avcodec_find_decoder :: "nat \<Rightarrow> bool"
  avcodec_copy_context :: "nat \<Rightarrow> int"
  avcodec_open2 :: "nat \<Rightarrow> int"

text \<open>
  Modelled from the spec: the frame object \<open>VideoFrame\<close> (videoframe.cpp is not among the
  sources). A frame is alive while a consumer holds a strong reference; it references
  decoder-owned memory until it is released; it carries the slot index bound into its release
  callback.
\<close>

record VideoFrame =
  alive :: bool
  holdsDecoderMemory :: bool
  freelistIndex :: int

text \<open>
  Modelled from the spec: \<open>VideoFrame::releaseFrame()\<close>, which is absent from the sources;
  the spec asks of a release that the handle stops referencing decoder-owned memory, and that
  it may be repeated.
\<close>

definition releaseFrame :: "VideoFrame \<Rightarrow> VideoFrame" where
  "releaseFrame f = f\<lparr>holdsDecoderMemory := False\<rparr>"

section \<open>The camera source\<close>

text \<open>
  The members of \<open>CameraSource\<close>. A pointer is an option; the pointer \<open>device\<close> is kept
  together with the object it points to. A weak pointer to a frame is the optional index of
  the frame in \<open>frames\<close>, the heap of frames this source has created. \<open>streamRunning\<close> is
  \<open>streamFuture.isRunning()\<close>, and \<open>m_isOpen\<close> is the member \<open>_isOpen\<close>. The count
  \<open>subscriptions\<close> is the value of a \<open>std::atomic_int\<close>: an integer of 32 bits, whose
  increment and decrement wrap around (\<open>wrap32\<close> below).

  The last field is not a member: \<open>closedDevices\<close> is the record the device layer keeps of
  the handles it has closed for good, one entry for each call of \<open>close()\<close> that reported
  the final close, in the order of the calls.
\<close>

record CameraSource =
  deviceName :: string
  device :: "CameraDevice option"
  mode :: VideoMode
  cctx :: "AVCodecContext option"
  cctxOrig :: "AVCodecContext option"
  videoStreamIndex :: int
  m_isOpen :: bool
  streamBlocker :: bool
  subscriptions :: int
  freelist :: "nat option list"
  streamRunning :: bool
  frames :: "VideoFrame list"
  closedDevices :: "CameraDevice list"

datatype fault = OutOfRange | UseAfterFree

definition wrap32 :: "int \<Rightarrow> int" where
  "wrap32 n = (n + 2147483648) mod 4294967296 - 2147483648"

definition CameraSource_init :: CameraSource where
  "CameraSource_init =
     \<lparr>deviceName = ''none'', device = None, mode = VideoMode_default,
      cctx = None, cctxOrig = None, videoStreamIndex = - 1,
      m_isOpen = False, streamBlocker = False, subscriptions = 0,
      freelist = [], streamRunning = False, frames = [], closedDevices = []\<rparr>"

subsection \<open>The freelist\<close>

definition lock_weak :: "VideoFrame list \<Rightarrow> nat option \<Rightarrow> nat option" where
  "lock_weak fs w =
     (case w of None \<Rightarrow> None
      | Some f \<Rightarrow> if f < length fs \<and> alive (fs ! f) then Some f else None)"

definition expired :: "VideoFrame list \<Rightarrow> nat option \<Rightarrow> bool" where
  "expired fs w = (lock_weak fs w = None)"

fun scanExpired :: "VideoFrame list \<Rightarrow> nat option list \<Rightarrow> nat \<Rightarrow> nat option" where
  "scanExpired fs [] i = None"
| "scanExpired fs (w # ws) i = (if expired fs w then Some i else scanExpired fs ws (Suc i))"

definition resize :: "nat option list \<Rightarrow> nat \<Rightarrow> nat option list" where
  "resize ws n = take n ws @ replicate (n - length ws) None"

definition getFreelistSlotLockless :: "CameraSource \<Rightarrow> int \<times> CameraSource" where
  "getFreelistSlotLockless s =
     (let size = length (freelist s)
      in case scanExpired (frames s) (freelist s) 0 of
           Some i \<Rightarrow> (int i, s)
         | None \<Rightarrow> (int size, s\<lparr>freelist := resize (freelist s) (size + size div 2 + 4)\<rparr>))"

definition freelistCallback :: "int \<Rightarrow> CameraSource \<Rightarrow> fault + CameraSource" where
  "freelistCallback freelistIndex' s =
     (if 0 \<le> freelistIndex' \<and> nat freelistIndex' < length (freelist s)
      then Inr (s\<lparr>freelist := (freelist s)[nat freelistIndex' := None]\<rparr>)
      else Inl OutOfRange)"

subsection \<open>Closing the device\<close>

fun releaseFrames :: "nat option list \<Rightarrow> VideoFrame list \<Rightarrow> VideoFrame list" where
  "releaseFrames [] fs = fs"
| "releaseFrames (w # ws) fs =
     releaseFrames ws
       (case lock_weak fs w of None \<Rightarrow> fs | Some f \<Rightarrow> fs[f := releaseFrame (fs ! f)])"

text \<open>
  The call \<open>device->close()\<close> on the handle the source points to. Modelled from the spec:
  what the final close does inside \<open>CameraDevice::close()\<close>, which is absent from the
  sources. When the call reports the final close, the device layer has closed the handle,
  which goes into its record. The pointer of the source is not touched: it dangles then,
  until the source sets it to null. A further call on such a handle is not defined in the
  program; here it lets the count fall on and puts the handle on record once more.
\<close>

definition device_close :: "CameraSource \<Rightarrow> bool \<times> CameraSource" where
  "device_close s =
     (case device s of
        None \<Rightarrow> (True, s)
      | Some d \<Rightarrow>
         (let (closed, d') = CameraDevice_close d
          in (closed,
              s\<lparr>device := Some d',
                closedDevices := (if closed then closedDevices s @ [d'] else closedDevices s)\<rparr>)))"

text \<open>The loop \<open>while (device && !device->close()) {}\<close>.\<close>

function closeLoop :: "CameraSource \<Rightarrow> CameraSource" where
  "closeLoop s =
     (if device s \<noteq> None \<and> \<not> fst (device_close s) then closeLoop (snd (device_close s))
      else if device s \<noteq> None then snd (device_close s)
      else s)"
  by pat_completeness auto
termination
  by (relation "measure (\<lambda>s. case device s of None \<Rightarrow> 0 | Some d \<Rightarrow> nat (refcount d))")
     (auto simp: device_close_def CameraDevice_close_def Let_def split: if_splits option.splits)

declare closeLoop.simps [simp del]

definition avcodec_close :: "AVCodecContext option \<Rightarrow> AVCodecContext option" where
  "avcodec_close c = map_option (\<lambda>x. x\<lparr>codec_opened := False\<rparr>) c"

definition closeDevice :: "CameraSource \<Rightarrow> CameraSource" where
  "closeDevice s =
     (let s1 = s\<lparr>frames := releaseFrames (freelist s) (frames s)\<rparr>;
          s2 = s1\<lparr>freelist := []\<rparr>;
          s3 = s2\<lparr>videoStreamIndex := - 1\<rparr>;
          s4 = s3\<lparr>cctx := None\<rparr>;
          s5 = s4\<lparr>cctxOrig := avcodec_close (cctxOrig s4)\<rparr>;
          s6 = s5\<lparr>cctxOrig := None\<rparr>;
          s7 = closeLoop s6
      in s7\<lparr>device := None\<rparr>)"



subsection \<open>Opening the device\<close>

fun firstVideo :: "AVStream list \<Rightarrow> nat \<Rightarrow> nat option" where
  "firstVideo [] i = None"
| "firstVideo (st # sts) i =
     (if codec_type (codec st) = AVMEDIA_TYPE_VIDEO then Some i else firstVideo sts (Suc i))"

definition avcodec_alloc_context3 :: "AVCodecContext \<Rightarrow> AVCodecContext" where
  "avcodec_alloc_context3 orig = orig\<lparr>refcounted_frames := 0, codec_opened := False\<rparr>"

text \<open>
  \<open>avcodec_alloc_context3\<close> gives a fresh context for the decoder of the stream, not yet
  opened; the copy of the original context into it then takes the parameters of the stream.
  \<open>openDevice\<close> returns its boolean together with the new state. The read
  \<open>streams[videoStreamIndex]\<close> is the one indexed access that the loop before it does not
  bound (the index may be a stale one when no video stream was found), so an index outside
  the stream array is the fault \<open>OutOfRange\<close>. The call \<open>device->open()\<close> on a handle
  that the device layer has closed for good (its count is not positive) is the fault
  \<open>UseAfterFree\<close>. The two waits on the stream thread are the assignment of
  \<open>streamRunning\<close>.
\<close>

definition openDevice :: "Env \<Rightarrow> CameraSource \<Rightarrow> fault + (bool \<times> CameraSource)" where
  "openDevice env s =
     (case device s of
        Some d \<Rightarrow>
          if refcount d \<le> 0 then Inl UseAfterFree
          else Inr (True, s\<lparr>device := Some (CameraDevice_open d)\<rparr>)
      | None \<Rightarrow>
         (case CameraDevice_open_static env (deviceName s) (mode s) of
            None \<Rightarrow> Inr (False, s)
          | Some d0 \<Rightarrow>
             (let d = (CameraDevice_open ^^ nat (subscriptions s)) d0;
                  s1 = s\<lparr>device := Some d\<rparr>;
                  s2 = (case firstVideo (streams d) 0 of
                          Some i \<Rightarrow> s1\<lparr>videoStreamIndex := int i\<rparr>
                        | None \<Rightarrow> s1)
              in if videoStreamIndex s2 = - 1 then Inr (False, s2)
                 else if \<not> (0 \<le> videoStreamIndex s2
                            \<and> nat (videoStreamIndex s2) < length (streams d))
                 then Inl OutOfRange
                 else
                   (let orig = codec (streams d ! nat (videoStreamIndex s2));
                        s3 = s2\<lparr>cctxOrig := Some orig\<rparr>
                    in if \<not> avcodec_find_decoder env (codec_id orig) then Inr (False, s3)
                       else
                         (let s4 = s3\<lparr>cctx := Some (avcodec_alloc_context3 orig)\<rparr>
                          in if avcodec_copy_context env (codec_id orig) \<noteq> 0
                             then Inr (False, s4)
                             else
                               (let c = orig\<lparr>refcounted_frames := 1, codec_opened := False\<rparr>;
                                    s5 = s4\<lparr>cctx := Some c\<rparr>
                                in if avcodec_open2 env (codec_id orig) < 0
                                   then Inr (False, s5\<lparr>cctx := None\<rparr>)
                                   else Inr (True,
                                          s5\<lparr>cctx := Some (c\<lparr>codec_opened := True\<rparr>),
                                             streamRunning := True\<rparr>)))))))"

subsection \<open>The public operations\<close>

text \<open>
  The three overloads of \<open>open\<close> are \<open>open_mode\<close> (device name and mode),
  \<open>open_name\<close> (device name, the mode taken from the settings) and \<open>open_default\<close>
  (the default device). The two mutexes and the memory fences have no counterpart: the
  operations are taken one at a time, as the big lock serialises them.
\<close>

definition subscribe :: "Env \<Rightarrow> CameraSource \<Rightarrow> fault + (bool \<times> CameraSource)" where
  "subscribe env s =
     (if \<not> m_isOpen s then Inr (True, s\<lparr>subscriptions := wrap32 (subscriptions s + 1)\<rparr>)
      else
        (case openDevice env s of
           Inl e \<Rightarrow> Inl e
         | Inr (ok, s1) \<Rightarrow>
            if ok then Inr (True, s1\<lparr>subscriptions := wrap32 (subscriptions s1 + 1)\<rparr>)
            else
              (let s2 = closeLoop s1;
                   s3 = s2\<lparr>device := None\<rparr>;
                   s4 = s3\<lparr>cctx := None, cctxOrig := None\<rparr>;
                   s5 = s4\<lparr>videoStreamIndex := - 1\<rparr>
               in Inr (False, s5))))"

text \<open>
  In \<open>unsubscribe\<close> the wait for the stream thread after \<open>closeDevice\<close> ends when the
  thread has seen the null device and returned: \<open>streamRunning\<close> is false then. The
  test \<open>subscriptions - 1 == 0\<close> is on the \<open>int\<close> read from the counter; it holds for the
  value 1 only, with or without wrap-around.
\<close>

definition unsubscribe :: "CameraSource \<Rightarrow> CameraSource" where
  "unsubscribe s =
     (let s0 = s\<lparr>streamBlocker := False\<rparr>
      in if \<not> m_isOpen s0 then s0\<lparr>subscriptions := wrap32 (subscriptions s0 - 1)\<rparr>
         else
           (case device s0 of
              None \<Rightarrow> s0
            | Some d \<Rightarrow>
               (let s1 = (if subscriptions s0 - 1 = 0
                          then (closeDevice s0)\<lparr>streamRunning := False\<rparr>
                          else snd (device_close s0))
                in s1\<lparr>subscriptions := wrap32 (subscriptions s1 - 1)\<rparr>)))"

definition open_mode :: "Env \<Rightarrow> string \<Rightarrow> VideoMode \<Rightarrow> CameraSource \<Rightarrow> fault + CameraSource" where
  "open_mode env DeviceName Mode s =
     (let s0 = s\<lparr>streamBlocker := True\<rparr>
      in if DeviceName = deviceName s0 \<and> Mode = mode s0 then Inr (s0\<lparr>streamBlocker := False\<rparr>)
         else
           (let s1 = (if subscriptions s0 \<noteq> 0 then closeDevice s0 else s0);
                s2 = s1\<lparr>deviceName := DeviceName\<rparr>;
                s3 = s2\<lparr>mode := Mode\<rparr>;
                s4 = s3\<lparr>m_isOpen := (deviceName s3 \<noteq> ''none'')\<rparr>
            in if subscriptions s4 \<noteq> 0 \<and> m_isOpen s4
               then (case openDevice env s4 of
                       Inl e \<Rightarrow> Inl e
                     | Inr (ok, s5) \<Rightarrow> Inr (s5\<lparr>streamBlocker := False\<rparr>))
               else Inr (s4\<lparr>streamBlocker := False\<rparr>)))"

definition settingsMode :: "Env \<Rightarrow> string \<Rightarrow> VideoMode" where
  "settingsMode env name =
     (let mode0 = getScreenRegion env
      in if \<not> isScreen env name then (getCamVideoRes env)\<lparr>FPS := getCamVideoFPS env\<rparr>
         else mode0)"

definition open_name :: "Env \<Rightarrow> string \<Rightarrow> CameraSource \<Rightarrow> fault + CameraSource" where
  "open_name env name s = open_mode env name (settingsMode env name) s"

definition open_default :: "Env \<Rightarrow> CameraSource \<Rightarrow> fault + CameraSource" where
  "open_default env s = open_name env (getDefaultDeviceName env) s"

definition close :: "Env \<Rightarrow> CameraSource \<Rightarrow> fault + CameraSource" where
  "close env s = open_name env ''none'' s"

definition isOpen :: "CameraSource \<Rightarrow> bool" where
  "isOpen s = m_isOpen s"

subsection \<open>The stream thread\<close>

text \<open>
  One decoded frame is published by the block between \<open>freelistLock.lock()\<close> and
  \<open>freelistLock.unlock()\<close>: a slot is asked of \<open>getFreelistSlotLockless\<close>, the frame is
  created with the callback bound to that slot, and the weak pointer is appended to the
  freelist. The signal keeps the frame alive for its consumers.
\<close>

definition publishFrame :: "CameraSource \<Rightarrow> CameraSource" where
  "publishFrame s =
     (let (freeFreelistSlot, s1) = getFreelistSlotLockless s;
          vframe = length (frames s1);
          s2 = s1\<lparr>frames := frames s1 @
                 [\<lparr>alive = True, holdsDecoderMemory = True, freelistIndex = freeFreelistSlot\<rparr>]\<rparr>
      in s2\<lparr>freelist := freelist s2 @ [Some vframe]\<rparr>)"

record StreamInput =
  frame_alloc_ok :: bool
  av_read_frame :: int
  packet_stream_index :: int
  frameFinished :: int

definition streamLoop :: "StreamInput \<Rightarrow> CameraSource \<Rightarrow> CameraSource" where
  "streamLoop inp s =
     (if \<not> frame_alloc_ok inp then s
      else if av_read_frame inp < 0 then s
      else if packet_stream_index inp = videoStreamIndex s
      then (if frameFinished inp = 0 then s else publishFrame s)
      else s)"

text \<open>One turn of the \<open>forever\<close> loop of the thread; with a null device the thread returns.\<close>

definition stream_iteration :: "StreamInput \<Rightarrow> CameraSource \<Rightarrow> CameraSource" where
  "stream_iteration inp s =
     (case device s of
        None \<Rightarrow> s\<lparr>streamRunning := False\<rparr>
      | Some d \<Rightarrow> streamLoop inp s)"

subsection \<open>Sequences of calls\<close>

datatype call = Open string VideoMode | OpenName string | OpenDefault | Close
  | Subscribe | Unsubscribe

fun step :: "Env \<Rightarrow> call \<Rightarrow> CameraSource \<Rightarrow> fault + CameraSource" where
  "step env (Open name m) s = open_mode env name m s"
| "step env (OpenName name) s = open_name env name s"
| "step env OpenDefault s = open_default env s"
| "step env Close s = close env s"
| "step env Subscribe s = map_sum id snd (subscribe env s)"
| "step env Unsubscribe s = Inr (unsubscribe s)"

fun run :: "Env \<Rightarrow> call list \<Rightarrow> CameraSource \<Rightarrow> fault + CameraSource" where
  "run env [] s = Inr s"
| "run env (c # cs) s = (case step env c s of Inl e \<Rightarrow> Inl e | Inr s' \<Rightarrow> run env cs s')"

subsection \<open>The death of a frame\<close>

text \<open>
  Modelled from the spec: what a \<open>VideoFrame\<close> does when its last strong reference is
  dropped (its destructor is not among the sources). The spec says that the handle then
  notifies the source through its slot index; the frame is dead afterwards.
\<close>

definition dropFrame :: "nat \<Rightarrow> CameraSource \<Rightarrow> fault + CameraSource" where
  "dropFrame f s =
     (if \<not> f < length (frames s) then Inl OutOfRange
      else
        (case freelistCallback (freelistIndex (frames s ! f)) s of
           Inl e \<Rightarrow> Inl e
         | Inr s1 \<Rightarrow> Inr (s1\<lparr>frames := (frames s1)[f := (frames s1 ! f)\<lparr>alive := False\<rparr>]\<rparr>)))"

section \<open>Predicates of the statements\<close>



text \<open>
  The device session is the device handle, the decoder context and the index of the stream.
  It is present when all three are there, and absent when the pointers are null and the
  index is -1.
\<close>

definition sessionPresent :: "CameraSource \<Rightarrow> bool" where
  "sessionPresent s \<longleftrightarrow> device s \<noteq> None \<and> cctx s \<noteq> None \<and> videoStreamIndex s \<noteq> - 1"

definition sessionAbsent :: "CameraSource \<Rightarrow> bool" where
  "sessionAbsent s \<longleftrightarrow>
     device s = None \<and> cctx s = None \<and> cctxOrig s = None \<and> videoStreamIndex s = - 1"

text \<open>
  The session is the one of the configured device: the handle is a live handle of the device
  that the device layer opens for the desired name and mode, the index is that of its first
  video stream, and the contexts are those of this stream, the decoder context opened.
\<close>

definition sessionOf :: "Env \<Rightarrow> CameraSource \<Rightarrow> bool" where
  "sessionOf env s \<longleftrightarrow>
     (\<exists>d0 d k. CameraDevice_open_static env (deviceName s) (mode s) = Some d0
        \<and> device s = Some d \<and> streams d = streams d0 \<and> 0 < refcount d
        \<and> subscriptions s \<le> refcount d
        \<and> firstVideo (streams d0) 0 = Some k \<and> videoStreamIndex s = int k
        \<and> cctxOrig s = Some (codec (streams d0 ! k))
        \<and> cctx s = Some ((codec (streams d0 ! k))\<lparr>refcounted_frames := 1, codec_opened := True\<rparr>))"


text \<open>
  Every frame that is alive and still references decoder-owned memory has its weak pointer
  in some slot of the freelist.
\<close>

definition tracked :: "CameraSource \<Rightarrow> bool" where
  "tracked s \<longleftrightarrow>
     (\<forall>f<length (frames s). alive (frames s ! f) \<and> holdsDecoderMemory (frames s ! f)
        \<longrightarrow> Some f \<in> set (freelist s))"




text \<open>
  The shape of the freelist while frames are published and die: the live frames that
  reference decoder memory are tracked, every callback is bound to slot 0, and slot 0 of a
  freelist that is not empty holds no frame.
\<close>

definition freelist_inv :: "CameraSource \<Rightarrow> bool" where
  "freelist_inv s \<longleftrightarrow>
     tracked s
     \<and> (\<forall>f<length (frames s). freelistIndex (frames s ! f) = 0)
     \<and> (freelist s \<noteq> [] \<longrightarrow> freelist s ! 0 = None)"

section \<open>Concrete environments and states\<close>

definition videoStream :: AVStream where
  "videoStream = \<lparr>codec = \<lparr>codec_type = AVMEDIA_TYPE_VIDEO, codec_id = 7,
     refcounted_frames = 0, codec_opened = False\<rparr>\<rparr>"

definition camDevice :: CameraDevice where
  "camDevice = \<lparr>refcount = 1, streams = [videoStream]\<rparr>"

definition goodEnv :: Env where
  "goodEnv =
     \<lparr>getScreenRegion = VideoMode_default,
      getCamVideoRes = \<lparr>width = 640, height = 480, xoff = 0, yoff = 0, FPS = 0\<rparr>,
      getCamVideoFPS = 30,
      isScreen = (\<lambda>name. False),
      getDefaultDeviceName = ''video0'',
      CameraDevice_open_static = (\<lambda>name m. Some camDevice),
      avcodec_find_decoder = (\<lambda>cid. True),
      avcodec_copy_context = (\<lambda>cid. 0),
      avcodec_open2 = (\<lambda>cid. 0)\<rparr>"

definition noDeviceEnv :: Env where
  "noDeviceEnv = goodEnv\<lparr>CameraDevice_open_static := (\<lambda>name m. None)\<rparr>"

definition noVideoEnv :: Env where
  "noVideoEnv =
     goodEnv\<lparr>CameraDevice_open_static := (\<lambda>name m. Some (camDevice\<lparr>streams := []\<rparr>))\<rparr>"





definition liveFrame :: VideoFrame where
  "liveFrame = \<lparr>alive = True, holdsDecoderMemory = True, freelistIndex = 0\<rparr>"

definition plainEnv :: Env where
  "plainEnv = goodEnv\<lparr>getCamVideoRes := VideoMode_default, getCamVideoFPS := 0\<rparr>"

text \<open>A source that streams from the device \<open>cam\<close> for one subscriber.\<close>

definition streaming1 :: CameraSource where
  "streaming1 =
     CameraSource_init\<lparr>deviceName := ''cam'', m_isOpen := True, subscriptions := 1,
       device := Some \<lparr>refcount = 2, streams = [videoStream]\<rparr>,
       videoStreamIndex := 0, cctxOrig := Some (codec videoStream),
       cctx := Some ((codec videoStream)\<lparr>refcounted_frames := 1, codec_opened := True\<rparr>),
       streamRunning := True\<rparr>"

text \<open>A freelist whose slots all hold live frames, and one with expired slots.\<close>

definition fullList :: CameraSource where
  "fullList = CameraSource_init\<lparr>freelist := [Some 0, Some 1], frames := [liveFrame, liveFrame]\<rparr>"

definition holeList :: CameraSource where
  "holeList =
     CameraSource_init\<lparr>freelist := [Some 1, None, Some 0, None],
       frames := [liveFrame, liveFrame]\<rparr>"

text \<open>
  A source that is not configured open any more and still holds the device: the state after
  the calls \<open>unsubscribe\<close>, \<open>open("cam", default)\<close>, \<open>subscribe\<close>, \<open>close\<close> on the fresh
  source.
\<close>

definition stranded :: CameraSource where
  "stranded =
     streaming1\<lparr>deviceName := ''none'', m_isOpen := False, subscriptions := 0,
       mode := \<lparr>width = 640, height = 480, xoff = 0, yoff = 0, FPS = 30\<rparr>\<rparr>"


section \<open>Evaluation\<close>

lemmas env_defs = goodEnv_def noDeviceEnv_def noVideoEnv_def camDevice_def videoStream_def

lemmas op_defs = subscribe_def unsubscribe_def open_mode_def open_name_def close_def
  openDevice_def closeDevice_def settingsMode_def CameraSource_init_def VideoMode_default_def
  CameraDevice_open_def CameraDevice_close_def device_close_def wrap32_def avcodec_close_def
  closeLoop.simps

section \<open>The loop that closes the handle\<close>

lemma device_close_frame:
  "snd (device_close s) =
     s\<lparr>device := device (snd (device_close s)),
       closedDevices := closedDevices (snd (device_close s))\<rparr>"
  by (simp add: device_close_def Let_def case_prod_beta split: option.splits)

lemma closeLoop_frame:
  "closeLoop s = s\<lparr>device := device (closeLoop s), closedDevices := closedDevices (closeLoop s)\<rparr>"
proof (induction s rule: closeLoop.induct)
  case (1 s)
  show ?case
  proof (cases "device s \<noteq> None \<and> \<not> fst (device_close s)")
    case True
    then have e: "closeLoop s = closeLoop (snd (device_close s))"
      by (subst closeLoop.simps) simp
    from "1.IH" [OF True] have
      "closeLoop (snd (device_close s)) =
         (snd (device_close s))\<lparr>device := device (closeLoop (snd (device_close s))),
            closedDevices := closedDevices (closeLoop (snd (device_close s)))\<rparr>" .
    also have "\<dots> = s\<lparr>device := device (closeLoop (snd (device_close s))),
            closedDevices := closedDevices (closeLoop (snd (device_close s)))\<rparr>"
      by (subst device_close_frame) simp
    finally show ?thesis by (simp add: e)
  next
    case False
    then have "closeLoop s = (if device s \<noteq> None then snd (device_close s) else s)"
      by (subst closeLoop.simps) auto
    then show ?thesis
      using device_close_frame [of s] by (cases "device s \<noteq> None") simp_all
  qed
qed



section \<open>What closing and opening the device keep\<close>

lemma closeDevice_config [simp]:
  "deviceName (closeDevice s) = deviceName s" "mode (closeDevice s) = mode s"
  "m_isOpen (closeDevice s) = m_isOpen s" "subscriptions (closeDevice s) = subscriptions s"
  "streamBlocker (closeDevice s) = streamBlocker s"
  "streamRunning (closeDevice s) = streamRunning s"
  by (simp_all add: closeDevice_def Let_def, (subst closeLoop_frame, simp)+)

lemma closeDevice_session [simp]:
  "device (closeDevice s) = None" "cctx (closeDevice s) = None"
  "cctxOrig (closeDevice s) = None" "videoStreamIndex (closeDevice s) = - 1"
  "freelist (closeDevice s) = []"
  "frames (closeDevice s) = releaseFrames (freelist s) (frames s)"
  by (simp_all add: closeDevice_def Let_def, (subst closeLoop_frame, simp)+)



lemma openDevice_config:
  "openDevice env s = Inr (ok, s') \<Longrightarrow>
     deviceName s' = deviceName s \<and> mode s' = mode s \<and> m_isOpen s' = m_isOpen s
     \<and> subscriptions s' = subscriptions s \<and> streamBlocker s' = streamBlocker s
     \<and> freelist s' = freelist s \<and> frames s' = frames s
     \<and> closedDevices s' = closedDevices s"
  by (auto simp: openDevice_def Let_def split: option.splits if_splits)

lemma open_mode_config:
  "open_mode env d m s = Inr s' \<Longrightarrow> deviceName s' = d \<and> mode s' = m \<and> \<not> streamBlocker s'"
  by (auto simp: open_mode_def Let_def split: if_splits sum.splits dest!: openDevice_config)


lemma streams_funpow_open [simp]: "streams ((CameraDevice_open ^^ n) d) = streams d"
  by (induction n) (simp_all add: CameraDevice_open_def)

lemma refcount_funpow_open [simp]:
  "refcount ((CameraDevice_open ^^ n) d) = refcount d + int n"
  by (induction n) (simp_all add: CameraDevice_open_def)


section \<open>The session and the ledger\<close>

lemma sessionOf_present: "sessionOf env s \<Longrightarrow> sessionPresent s \<and> \<not> sessionAbsent s"
  by (auto simp: sessionOf_def sessionPresent_def sessionAbsent_def)

lemma sessionAbsent_not_present: "sessionAbsent s \<Longrightarrow> \<not> sessionPresent s"
  by (simp add: sessionAbsent_def sessionPresent_def)


















section \<open>Publishing a frame\<close>

lemma scanExpired_Some:
  "scanExpired fs ws i = Some k \<Longrightarrow>
     i \<le> k \<and> k - i < length ws \<and> expired fs (ws ! (k - i))
     \<and> (\<forall>j<k - i. \<not> expired fs (ws ! j))"
proof (induction ws arbitrary: i)
  case Nil
  then show ?case by simp
next
  case (Cons w ws)
  show ?case
  proof (cases "expired fs w")
    case True
    with Cons.prems show ?thesis by simp
  next
    case False
    with Cons.prems have "scanExpired fs ws (Suc i) = Some k" by simp
    from Cons.IH [OF this] have ih: "Suc i \<le> k" "k - Suc i < length ws"
      "expired fs (ws ! (k - Suc i))" "\<forall>j<k - Suc i. \<not> expired fs (ws ! j)" by auto
    from ih(1) have e: "k - i = Suc (k - Suc i)" by arith
    show ?thesis using ih False unfolding e
      by (auto simp: nth_Cons split: nat.splits)
  qed
qed

lemma scanExpired_None:
  "scanExpired fs ws i = None \<longleftrightarrow> (\<forall>j<length ws. \<not> expired fs (ws ! j))"
  by (induction ws arbitrary: i) (auto simp: nth_Cons All_less_Suc2 split: nat.splits)

lemma getFreelistSlotLockless_effect:
  "frames (snd (getFreelistSlotLockless s)) = frames s
   \<and> set (freelist s) \<subseteq> set (freelist (snd (getFreelistSlotLockless s)))
   \<and> 0 \<le> fst (getFreelistSlotLockless s)
   \<and> nat (fst (getFreelistSlotLockless s)) < length (freelist (snd (getFreelistSlotLockless s)))"
proof (cases "scanExpired (frames s) (freelist s) 0")
  case None
  then show ?thesis
    by (auto simp: getFreelistSlotLockless_def Let_def resize_def)
next
  case (Some k)
  with scanExpired_Some [OF Some] show ?thesis
    by (simp add: getFreelistSlotLockless_def Let_def)
qed

lemma publishFrame_effect:
  "freelist (publishFrame s) = freelist (snd (getFreelistSlotLockless s)) @ [Some (length (frames s))]
   \<and> frames (publishFrame s) = frames s @
        [\<lparr>alive = True, holdsDecoderMemory = True,
          freelistIndex = fst (getFreelistSlotLockless s)\<rparr>]"
  using getFreelistSlotLockless_effect [of s]
  by (simp add: publishFrame_def Let_def case_prod_beta)

text \<open>
  Claim C2: the weak reference of a published frame is recorded in the slot that was
  reserved for it, the slot its release callback clears.
  On the empty freelist the reserved slot is 0 (after the growth to four slots), the callback
  is bound to 0, and the weak reference is appended behind the four slots, at index 4; slot 0
  stays empty.
\<close>

theorem publishFrame_slot_mismatch:
  "freelist (publishFrame CameraSource_init) = [None, None, None, None, Some 0]
   \<and> freelistIndex (frames (publishFrame CameraSource_init) ! 0) = 0"
  by (simp add: publishFrame_def getFreelistSlotLockless_def CameraSource_init_def resize_def
      numeral_eq_Suc)

text \<open>
  In every state the weak pointer of the new frame is the last entry of the freelist, behind
  the slot that was reserved for it, and each published frame makes the freelist longer.
\<close>

lemma publishFrame_slot_differs:
  "freelist (publishFrame s) ! (length (freelist (publishFrame s)) - 1) = Some (length (frames s))
   \<and> freelistIndex (frames (publishFrame s) ! length (frames s)) = fst (getFreelistSlotLockless s)
   \<and> nat (fst (getFreelistSlotLockless s)) < length (freelist (publishFrame s)) - 1
   \<and> length (freelist s) < length (freelist (publishFrame s))"
proof -
  have "length (freelist s) \<le> length (freelist (snd (getFreelistSlotLockless s)))"
    by (cases "scanExpired (frames s) (freelist s) 0")
       (simp_all add: getFreelistSlotLockless_def Let_def resize_def)
  then show ?thesis
    using getFreelistSlotLockless_effect [of s] publishFrame_effect [of s]
    by (simp add: nth_append)
qed

section \<open>The frames the freelist tracks\<close>

lemma tracked_init: "tracked CameraSource_init"
  by (simp add: tracked_def CameraSource_init_def)

lemma tracked_publishFrame:
  assumes "tracked s" shows "tracked (publishFrame s)"
proof -
  from getFreelistSlotLockless_effect [of s]
  have sub: "set (freelist s) \<subseteq> set (freelist (snd (getFreelistSlotLockless s)))" by simp
  show ?thesis
    unfolding tracked_def
  proof (intro allI impI)
    fix f assume f: "f < length (frames (publishFrame s))"
      and a: "alive (frames (publishFrame s) ! f) \<and> holdsDecoderMemory (frames (publishFrame s) ! f)"
    show "Some f \<in> set (freelist (publishFrame s))"
    proof (cases "f < length (frames s)")
      case True
      with a have "alive (frames s ! f) \<and> holdsDecoderMemory (frames s ! f)"
        by (simp add: publishFrame_effect nth_append)
      with assms True have "Some f \<in> set (freelist s)" by (simp add: tracked_def)
      with sub show ?thesis by (auto simp: publishFrame_effect)
    next
      case False
      with f have "f = length (frames s)" by (simp add: publishFrame_effect)
      then show ?thesis by (simp add: publishFrame_effect)
    qed
  qed
qed

lemma getFreelistSlotLockless_head:
  assumes "freelist s \<noteq> [] \<longrightarrow> freelist s ! 0 = None"
  shows "fst (getFreelistSlotLockless s) = 0
         \<and> freelist (snd (getFreelistSlotLockless s)) \<noteq> []
         \<and> freelist (snd (getFreelistSlotLockless s)) ! 0 = None"
proof (cases "freelist s")
  case Nil
  then show ?thesis
    by (simp add: getFreelistSlotLockless_def Let_def resize_def numeral_eq_Suc)
next
  case (Cons w ws)
  with assms have "w = None" by simp
  with Cons show ?thesis
    by (simp add: getFreelistSlotLockless_def Let_def expired_def lock_weak_def)
qed

lemma freelist_inv_init: "freelist_inv CameraSource_init"
  by (simp add: freelist_inv_def tracked_def CameraSource_init_def)

lemma freelist_inv_publishFrame:
  assumes "freelist_inv s" shows "freelist_inv (publishFrame s)"
proof -
  from assms have t: "tracked s" and i: "\<forall>f<length (frames s). freelistIndex (frames s ! f) = 0"
    and h: "freelist s \<noteq> [] \<longrightarrow> freelist s ! 0 = None" by (simp_all add: freelist_inv_def)
  from getFreelistSlotLockless_head [OF h]
  have g: "fst (getFreelistSlotLockless s) = 0" "freelist (snd (getFreelistSlotLockless s)) \<noteq> []"
    "freelist (snd (getFreelistSlotLockless s)) ! 0 = None" by simp_all
  have "\<forall>f<length (frames (publishFrame s)). freelistIndex (frames (publishFrame s) ! f) = 0"
    using i g(1) by (auto simp: publishFrame_effect nth_append)
  moreover have "freelist (publishFrame s) ! 0 = None"
    using g by (simp add: publishFrame_effect nth_append)
  ultimately show ?thesis using tracked_publishFrame [OF t] by (simp add: freelist_inv_def)
qed

lemma length_releaseFrames [simp]: "length (releaseFrames ws fs) = length fs"
  by (induction ws arbitrary: fs) (auto split: option.splits)

lemma freelistIndex_releaseFrames:
  "f < length fs \<Longrightarrow> freelistIndex (releaseFrames ws fs ! f) = freelistIndex (fs ! f)"
proof (induction ws arbitrary: fs)
  case Nil
  then show ?case by simp
next
  case (Cons w ws)
  show ?case
  proof (cases "lock_weak fs w")
    case None
    with Cons show ?thesis by simp
  next
    case (Some g)
    have "freelistIndex (fs[g := releaseFrame (fs ! g)] ! f) = freelistIndex (fs ! f)"
      using Cons.prems by (cases "f = g") (simp_all add: releaseFrame_def)
    with Some Cons.IH [of "fs[g := releaseFrame (fs ! g)]"] Cons.prems show ?thesis by simp
  qed
qed

lemma freelist_inv_dropFrame:
  assumes "freelist_inv s" and "dropFrame f s = Inr s'"
  shows "freelist_inv s'"
proof -
  from assms(1) have t: "tracked s" and i: "\<forall>f<length (frames s). freelistIndex (frames s ! f) = 0"
    and h: "freelist s \<noteq> [] \<longrightarrow> freelist s ! 0 = None" by (simp_all add: freelist_inv_def)
  from assms(2) have f: "f < length (frames s)"
    by (auto simp: dropFrame_def split: if_splits)
  with i have z: "freelistIndex (frames s ! f) = 0" by simp
  from assms(2) f z have ne: "freelist s \<noteq> []"
    and s': "s' = s\<lparr>freelist := (freelist s)[0 := None],
                     frames := (frames s)[f := (frames s ! f)\<lparr>alive := False\<rparr>]\<rparr>"
    by (auto simp: dropFrame_def freelistCallback_def split: if_splits)
  from ne h have same: "(freelist s)[0 := None] = freelist s"
    by (simp add: list_update_same_conv)
  have "tracked s'"
    unfolding tracked_def
  proof (intro allI impI)
    fix g assume g: "g < length (frames s')"
      and a: "alive (frames s' ! g) \<and> holdsDecoderMemory (frames s' ! g)"
    from g a have "g \<noteq> f" by (auto simp: s')
    with g a have "g < length (frames s)" "alive (frames s ! g) \<and> holdsDecoderMemory (frames s ! g)"
      by (simp_all add: s')
    with t have "Some g \<in> set (freelist s)" by (simp add: tracked_def)
    then show "Some g \<in> set (freelist s')" by (simp add: s' same)
  qed
  moreover have "\<forall>g<length (frames s'). freelistIndex (frames s' ! g) = 0"
  proof (intro allI impI)
    fix g assume "g < length (frames s')"
    then have "g < length (frames s)" by (simp add: s')
    with i show "freelistIndex (frames s' ! g) = 0"
      by (cases "g = f") (simp_all add: s')
  qed
  moreover have "freelist s' \<noteq> [] \<longrightarrow> freelist s' ! 0 = None"
    using h by (simp add: s' same)
  ultimately show ?thesis by (simp add: freelist_inv_def)
qed

lemma alive_releaseFrames:
  "f < length fs \<Longrightarrow> alive (releaseFrames ws fs ! f) = alive (fs ! f)"
proof (induction ws arbitrary: fs)
  case Nil
  then show ?case by simp
next
  case (Cons w ws)
  then show ?case
    by (auto simp: lock_weak_def releaseFrame_def nth_list_update split: option.splits if_splits)
qed

lemma holds_releaseFrames:
  "f < length fs \<Longrightarrow>
     holdsDecoderMemory (releaseFrames ws fs ! f) =
       (holdsDecoderMemory (fs ! f) \<and> \<not> (Some f \<in> set ws \<and> alive (fs ! f)))"
proof (induction ws arbitrary: fs)
  case Nil
  then show ?case by simp
next
  case (Cons w ws)
  show ?case
  proof (cases "lock_weak fs w")
    case None
    then have "w \<noteq> Some f \<or> \<not> alive (fs ! f)"
      using Cons.prems by (auto simp: lock_weak_def split: option.splits if_splits)
    with None Cons.IH [OF Cons.prems] show ?thesis by auto
  next
    case (Some g)
    then have g: "w = Some g" "g < length fs" "alive (fs ! g)"
      by (auto simp: lock_weak_def split: option.splits if_splits)
    let ?fs = "fs[g := releaseFrame (fs ! g)]"
    have l: "f < length ?fs" using Cons.prems by simp
    have a: "alive (?fs ! f) = alive (fs ! f)"
      using Cons.prems by (cases "f = g") (simp_all add: releaseFrame_def)
    have h: "holdsDecoderMemory (?fs ! f) = (holdsDecoderMemory (fs ! f) \<and> f \<noteq> g)"
      using Cons.prems by (cases "f = g") (simp_all add: releaseFrame_def)
    from Cons.IH [OF l] Some a h g show ?thesis by auto
  qed
qed

lemma freelist_inv_closeDevice:
  assumes "freelist_inv s"
  shows "freelist_inv (closeDevice s)"
proof -
  have fr: "frames (closeDevice s) = releaseFrames (freelist s) (frames s)"
    and fl: "freelist (closeDevice s) = []"
    by simp_all
  from assms have t: "tracked s" and i: "\<forall>f<length (frames s). freelistIndex (frames s ! f) = 0"
    by (simp_all add: freelist_inv_def)
  have "tracked (closeDevice s)"
    unfolding tracked_def
  proof (intro allI impI)
    fix f assume f: "f < length (frames (closeDevice s))"
      and a: "alive (frames (closeDevice s) ! f) \<and> holdsDecoderMemory (frames (closeDevice s) ! f)"
    from f have l: "f < length (frames s)" by (simp add: fr)
    from a l have al: "alive (frames s ! f)" and h: "holdsDecoderMemory (frames s ! f)"
      and n: "\<not> (Some f \<in> set (freelist s) \<and> alive (frames s ! f))"
      by (auto simp: fr alive_releaseFrames holds_releaseFrames)
    from t l al h have "Some f \<in> set (freelist s)" by (simp add: tracked_def)
    with n al show "Some f \<in> set (freelist (closeDevice s))" by simp
  qed
  moreover have "\<forall>f<length (frames (closeDevice s)). freelistIndex (frames (closeDevice s) ! f) = 0"
    using i by (simp add: fr freelistIndex_releaseFrames)
  ultimately show ?thesis by (simp add: freelist_inv_def fl)
qed


section \<open>Teardown of the device session\<close>









section \<open>Failure of the session establishment\<close>

text \<open>
  Claim C3: when a step of the establishment fails, no partial device session is left, on
  the path through \<open>subscribe\<close> and on the path through \<open>open\<close>.
  With one subscriber recorded, opening a device that has no video stream ends with the
  device handle still set (and opened twice): \<open>open\<close> does not look at the result of
  \<open>openDevice\<close>.
\<close>

theorem open_failure_leaves_device:
  "run noVideoEnv [Subscribe, Open ''cam'' VideoMode_default] CameraSource_init =
     Inr (CameraSource_init\<lparr>deviceName := ''cam'', m_isOpen := True, subscriptions := 1,
            device := Some \<lparr>refcount = 2, streams = []\<rparr>\<rparr>)"
  by (simp add: op_defs env_defs)

text \<open>
  On the path through \<open>subscribe\<close> a failed establishment is cleaned up: the pointers are
  null, the stream index is invalid and the count of subscriptions is as before.
\<close>

lemma subscribe_failure_clean:
  assumes "subscribe env s = Inr (False, s')"
  shows "device s' = None \<and> cctx s' = None \<and> cctxOrig s' = None
         \<and> videoStreamIndex s' = - 1 \<and> subscriptions s' = subscriptions s
         \<and> deviceName s' = deviceName s \<and> mode s' = mode s"
proof (cases "m_isOpen s")
  case False
  with assms show ?thesis by (simp add: subscribe_def)
next
  case True
  with assms obtain s1 where o: "openDevice env s = Inr (False, s1)"
    and s': "s' = (closeLoop s1)\<lparr>device := None, cctx := None, cctxOrig := None,
                                   videoStreamIndex := - 1\<rparr>"
    by (auto simp: subscribe_def Let_def split: sum.splits prod.splits if_splits)
  have "subscriptions (closeLoop s1) = subscriptions s1"
    "deviceName (closeLoop s1) = deviceName s1" "mode (closeLoop s1) = mode s1"
    by (subst closeLoop_frame, simp)+
  with openDevice_config [OF o] s' show ?thesis by simp
qed

section \<open>Unsubscribing without subscribers\<close>

text \<open>
  When the source is configured open and has no device, \<open>unsubscribe\<close> warns and leaves the
  members as they are.
\<close>

lemma unsubscribe_without_device:
  "m_isOpen s \<Longrightarrow> device s = None \<Longrightarrow> unsubscribe s = s\<lparr>streamBlocker := False\<rparr>"
  by (simp add: unsubscribe_def)

text \<open>
  Claim C4: unsubscribing with zero subscribers is reported and has no effect; the count is
  never decremented below zero, whether the source is configured open or not.
  The freshly constructed source is not configured open and has zero subscriptions; there
  \<open>unsubscribe\<close> takes the first branch, which decrements without any check, and the count
  becomes \<open>-1\<close>.
\<close>

theorem unsubscribe_fresh_goes_negative:
  "subscriptions (unsubscribe CameraSource_init) = - 1"
  by (simp add: unsubscribe_def CameraSource_init_def wrap32_def)

section \<open>Reopening with the same configuration\<close>

text \<open>
  Claim C6: \<open>open(deviceId, mode)\<close> with the current desired configuration returns at once
  and changes nothing, so a second \<open>open\<close> with the same arguments never closes or reopens
  the device.
  With the configuration of the state, \<open>open\<close> returns the state as it is; the one member it
  writes is the pause flag \<open>streamBlocker\<close>, raised on entry and lowered before the return,
  as every operation leaves it. After any \<open>open\<close> that returned, a second one with the same
  arguments returns the very same state, whatever the devices and codecs would answer then.
\<close>

theorem open_mode_same_config:
  "open_mode env (deviceName s) (mode s) s = Inr (s\<lparr>streamBlocker := False\<rparr>)
   \<and> (\<forall>s'. open_mode env d m s = Inr s' \<longrightarrow> open_mode env' d m s' = Inr s')"
proof
  show "open_mode env (deviceName s) (mode s) s = Inr (s\<lparr>streamBlocker := False\<rparr>)"
    by (simp add: open_mode_def)
  show "\<forall>s'. open_mode env d m s = Inr s' \<longrightarrow> open_mode env' d m s' = Inr s'"
  proof (intro allI impI)
    fix s' assume "open_mode env d m s = Inr s'"
    then have c: "deviceName s' = d" "mode s' = m" "\<not> streamBlocker s'"
      using open_mode_config by blast+
    then show "open_mode env' d m s' = Inr s'"
      by (simp add: open_mode_def)
  qed
qed

theorem open_mode_same_config_witness:
  "open_mode goodEnv ''cam'' VideoMode_default (CameraSource_init\<lparr>subscriptions := 1\<rparr>)
     = Inr streaming1
   \<and> open_mode noDeviceEnv ''cam'' VideoMode_default streaming1 = Inr streaming1"
proof -
  have a: "open_mode goodEnv ''cam'' VideoMode_default (CameraSource_init\<lparr>subscriptions := 1\<rparr>)
             = Inr streaming1"
    by (simp add: op_defs env_defs streaming1_def)
  from open_mode_same_config [of goodEnv "CameraSource_init\<lparr>subscriptions := 1\<rparr>"
      "''cam''" VideoMode_default noDeviceEnv] a
  show ?thesis by blast
qed

section \<open>Closing the source\<close>

text \<open>
  Claim C5: \<open>close()\<close> is equivalent to \<open>open("none", defaultMode)\<close>, with the same desired
  device name, the same desired mode (the all-zero default) and the same session status.
  On the fresh source with a camera resolution of 640 by 480 at 30 frames per second in the
  settings, \<open>close()\<close> stores that mode, while \<open>open("none", defaultMode)\<close> changes nothing.
\<close>

theorem close_differs_from_open_default:
  "close goodEnv CameraSource_init =
     Inr (CameraSource_init\<lparr>mode := \<lparr>width = 640, height = 480, xoff = 0, yoff = 0, FPS = 30\<rparr>\<rparr>)
   \<and> open_mode goodEnv ''none'' VideoMode_default CameraSource_init = Inr CameraSource_init
   \<and> close goodEnv CameraSource_init
       \<noteq> open_mode goodEnv ''none'' VideoMode_default CameraSource_init"
  by (simp add: op_defs env_defs)

text \<open>
  Claim C5, amended: \<open>close()\<close> is \<open>open("none", m)\<close> for the mode \<open>m\<close> that
  \<open>open(deviceName)\<close> takes from the settings for the name \<open>none\<close>. When the desired device
  is not \<open>none\<close>, the result of \<open>close()\<close> and that of \<open>open("none", defaultMode)\<close> differ in
  the stored mode only; they are the same when the settings give the default mode.
\<close>

theorem close_is_open_none_settings:
  "close env s = open_mode env ''none'' (settingsMode env ''none'') s
   \<and> (deviceName s \<noteq> ''none'' \<longrightarrow>
        map_sum id (\<lambda>t. t\<lparr>mode := VideoMode_default\<rparr>) (close env s)
          = open_mode env ''none'' VideoMode_default s)
   \<and> (settingsMode env ''none'' = VideoMode_default \<longrightarrow>
        close env s = open_mode env ''none'' VideoMode_default s)"
  by (simp add: close_def open_name_def open_mode_def Let_def)

theorem close_is_open_none_settings_witness:
  "close plainEnv streaming1 = open_mode plainEnv ''none'' VideoMode_default streaming1
   \<and> close plainEnv streaming1 =
       Inr (CameraSource_init\<lparr>subscriptions := 1, streamRunning := True,
              closedDevices := [\<lparr>refcount = 0, streams = [videoStream]\<rparr>]\<rparr>)"
proof -
  have n: "deviceName streaming1 \<noteq> ''none''"
    by (simp add: streaming1_def CameraSource_init_def)
  have m: "settingsMode plainEnv ''none'' = VideoMode_default"
    by (simp add: settingsMode_def plainEnv_def env_defs VideoMode_default_def)
  have v: "open_mode plainEnv ''none'' VideoMode_default streaming1 =
             Inr (CameraSource_init\<lparr>subscriptions := 1, streamRunning := True,
                    closedDevices := [\<lparr>refcount = 0, streams = [videoStream]\<rparr>]\<rparr>)"
    by (simp add: op_defs streaming1_def)
  from close_is_open_none_settings [of plainEnv streaming1] n m v
  show ?thesis by simp
qed

section \<open>The slot allocator\<close>

text \<open>
  Claim C8: on a freelist of size \<open>C\<close>, if some slot holds an expired weak reference the
  allocator returns the smallest such index (and leaves the freelist as it is); if all \<open>C\<close>
  slots are occupied it grows the freelist to \<open>C + C div 2 + 4\<close> slots and returns \<open>C\<close>,
  the first new slot, an index inside the grown freelist whose slot is free. Sizes are
  natural numbers here, without the bound of the \<open>int\<close> of the container.
\<close>

theorem getFreelistSlotLockless_slot:
  "((\<exists>k<length (freelist s). expired (frames s) (freelist s ! k)) \<longrightarrow>
      (\<exists>k<length (freelist s). fst (getFreelistSlotLockless s) = int k
         \<and> expired (frames s) (freelist s ! k)
         \<and> (\<forall>j<k. \<not> expired (frames s) (freelist s ! j)))
      \<and> snd (getFreelistSlotLockless s) = s)
   \<and> ((\<forall>k<length (freelist s). \<not> expired (frames s) (freelist s ! k)) \<longrightarrow>
      fst (getFreelistSlotLockless s) = int (length (freelist s))
      \<and> length (freelist (snd (getFreelistSlotLockless s)))
          = length (freelist s) + length (freelist s) div 2 + 4
      \<and> length (freelist s) < length (freelist (snd (getFreelistSlotLockless s)))
      \<and> take (length (freelist s)) (freelist (snd (getFreelistSlotLockless s))) = freelist s
      \<and> expired (frames s) (freelist (snd (getFreelistSlotLockless s)) ! length (freelist s))
      \<and> frames (snd (getFreelistSlotLockless s)) = frames s)"
proof (intro conjI impI)
  assume ex: "\<exists>k<length (freelist s). expired (frames s) (freelist s ! k)"
  then have "scanExpired (frames s) (freelist s) 0 \<noteq> None"
    by (simp add: scanExpired_None)
  then obtain k where k: "scanExpired (frames s) (freelist s) 0 = Some k" by auto
  from scanExpired_Some [OF k]
  show "\<exists>k<length (freelist s). fst (getFreelistSlotLockless s) = int k
         \<and> expired (frames s) (freelist s ! k)
         \<and> (\<forall>j<k. \<not> expired (frames s) (freelist s ! j))"
    using k by (auto simp: getFreelistSlotLockless_def)
  show "snd (getFreelistSlotLockless s) = s"
    using k by (simp add: getFreelistSlotLockless_def)
next
  assume "\<forall>k<length (freelist s). \<not> expired (frames s) (freelist s ! k)"
  then have n: "scanExpired (frames s) (freelist s) 0 = None"
    by (simp add: scanExpired_None)
  show "fst (getFreelistSlotLockless s) = int (length (freelist s))"
    using n by (simp add: getFreelistSlotLockless_def Let_def)
  show "length (freelist (snd (getFreelistSlotLockless s)))
          = length (freelist s) + length (freelist s) div 2 + 4"
    using n by (simp add: getFreelistSlotLockless_def resize_def Let_def)
  show "length (freelist s) < length (freelist (snd (getFreelistSlotLockless s)))"
    using n by (simp add: getFreelistSlotLockless_def resize_def Let_def)
  show "take (length (freelist s)) (freelist (snd (getFreelistSlotLockless s))) = freelist s"
    using n by (simp add: getFreelistSlotLockless_def resize_def Let_def)
  show "expired (frames s) (freelist (snd (getFreelistSlotLockless s)) ! length (freelist s))"
    using n by (simp add: getFreelistSlotLockless_def resize_def nth_append expired_def lock_weak_def Let_def)
  show "frames (snd (getFreelistSlotLockless s)) = frames s"
    using n by (simp add: getFreelistSlotLockless_def Let_def)
qed

theorem getFreelistSlotLockless_slot_witness:
  "fst (getFreelistSlotLockless holeList) = 1
   \<and> snd (getFreelistSlotLockless holeList) = holeList
   \<and> fst (getFreelistSlotLockless fullList) = 2
   \<and> length (freelist (snd (getFreelistSlotLockless fullList))) = 7"
proof -
  have h: "\<exists>k<length (freelist holeList). expired (frames holeList) (freelist holeList ! k)"
    by (rule exI [of _ 1]) (simp add: holeList_def CameraSource_init_def expired_def lock_weak_def)
  have f: "\<forall>k<length (freelist fullList). \<not> expired (frames fullList) (freelist fullList ! k)"
    by (simp add: fullList_def CameraSource_init_def expired_def lock_weak_def liveFrame_def
        All_less_Suc numeral_2_eq_2)
  from getFreelistSlotLockless_slot [of holeList] h
  obtain k where k: "k < length (freelist holeList)" "fst (getFreelistSlotLockless holeList) = int k"
    "expired (frames holeList) (freelist holeList ! k)"
    "\<forall>j<k. \<not> expired (frames holeList) (freelist holeList ! j)"
    and sn: "snd (getFreelistSlotLockless holeList) = holeList" by blast
  have e0: "\<not> expired (frames holeList) (freelist holeList ! 0)"
    by (simp add: holeList_def CameraSource_init_def expired_def lock_weak_def liveFrame_def)
  have e1: "expired (frames holeList) (freelist holeList ! 1)"
    by (simp add: holeList_def CameraSource_init_def expired_def lock_weak_def)
  have "k = 1"
  proof -
    have "k \<noteq> 0"
    proof
      assume "k = 0"
      with k(3) e0 show False by simp
    qed
    moreover have "\<not> 1 < k" using k(4) e1 by auto
    ultimately show ?thesis by arith
  qed
  moreover from getFreelistSlotLockless_slot [of fullList] f
  have "fst (getFreelistSlotLockless fullList) = int (length (freelist fullList))"
    "length (freelist (snd (getFreelistSlotLockless fullList)))
       = length (freelist fullList) + length (freelist fullList) div 2 + 4" by blast+
  moreover have "length (freelist fullList) = 2"
    by (simp add: fullList_def CameraSource_init_def)
  ultimately show ?thesis using k(2) sn by simp
qed

section \<open>The release callback\<close>

text \<open>
  Claim C9: the release callback indexes the freelist without a check, so the call is safe
  only for an index below the current size of the freelist; after \<open>closeDevice\<close> has
  cleared the freelist, no index is. Inside the bounds the call resets the slot and nothing
  else.
\<close>

theorem freelistCallback_bounds:
  "((\<exists>s'. freelistCallback i s = Inr s') \<longleftrightarrow> 0 \<le> i \<and> i < int (length (freelist s)))
   \<and> (freelistCallback i s = Inl OutOfRange \<longleftrightarrow> \<not> (0 \<le> i \<and> i < int (length (freelist s))))
   \<and> (0 \<le> i \<and> i < int (length (freelist s)) \<longrightarrow>
        freelistCallback i s = Inr (s\<lparr>freelist := (freelist s)[nat i := None]\<rparr>))
   \<and> freelistCallback i (closeDevice s) = Inl OutOfRange"
  by (auto simp: freelistCallback_def)

theorem freelistCallback_bounds_witness:
  "freelistCallback 0 (closeDevice (publishFrame CameraSource_init)) = Inl OutOfRange
   \<and> (\<exists>s'. freelistCallback 0 (publishFrame CameraSource_init) = Inr s')"
proof -
  have "0 \<le> (0::int) \<and> 0 < int (length (freelist (publishFrame CameraSource_init)))"
    by (simp add: publishFrame_def getFreelistSlotLockless_def CameraSource_init_def resize_def)
  with freelistCallback_bounds [of 0 "publishFrame CameraSource_init"]
    freelistCallback_bounds [of 0 "closeDevice (publishFrame CameraSource_init)"]
  show ?thesis by simp
qed

section \<open>Subscribing while the device is open\<close>

text \<open>
  Claim C10: whenever the device handle is not null, \<open>subscribe\<close> returns true and
  increments the open count of the handle and the count of subscribers, and nothing else.
  The calls \<open>unsubscribe\<close>, \<open>open("cam", default)\<close>, \<open>subscribe\<close>, \<open>close\<close> on the fresh
  source leave the handle open (count 2) on a source that is not configured open; there
  \<open>subscribe\<close> returns true and increments the count of subscribers, and the open count of
  the handle stays 2.
\<close>

theorem subscribe_closed_source_keeps_refcount:
  "run goodEnv [Unsubscribe, Open ''cam'' VideoMode_default, Subscribe, Close] CameraSource_init
     = Inr stranded
   \<and> device stranded = Some \<lparr>refcount = 2, streams = [videoStream]\<rparr>
   \<and> subscribe goodEnv stranded = Inr (True, stranded\<lparr>subscriptions := 1\<rparr>)
   \<and> device (stranded\<lparr>subscriptions := 1\<rparr>) = Some \<lparr>refcount = 2, streams = [videoStream]\<rparr>"
  by (simp add: op_defs env_defs streaming1_def stranded_def)


text \<open>
  On a source that is configured open and holds a live handle, \<open>subscribe\<close> does what the
  claim says.
\<close>

lemma subscribe_open_session:
  "device s = Some d \<Longrightarrow> 0 < refcount d \<Longrightarrow> m_isOpen s \<Longrightarrow>
     subscribe env s =
       Inr (True, s\<lparr>device := Some (CameraDevice_open d),
                    subscriptions := wrap32 (subscriptions s + 1)\<rparr>)"
  by (simp add: subscribe_def openDevice_def)

end
